theory Spec2Isabelle
  imports Complex_Main "HOL-Library.Char_ord" "HOL-Library.List_Lexorder"
begin

section \<open>Strings and paths\<close>

text \<open>
  The converter of \<^verbatim>\<open>Utilities/parallel_tif_to_jpg_or_png.py\<close> works on path strings.
  A string is a list of bytes; the string methods and the \<^verbatim>\<open>os.path\<close> functions the
  script calls are written out for ASCII text and POSIX paths. Strings are ordered
  lexicographically by character code, which is the order of Python's \<^verbatim>\<open>sorted\<close>.
\<close>

definition endswith :: "string \<Rightarrow> string \<Rightarrow> bool" where
  "endswith s suf = (length suf \<le> length s \<and> drop (length s - length suf) s = suf)"

definition startswith :: "string \<Rightarrow> string \<Rightarrow> bool" where
  "startswith s pre = (take (length pre) s = pre)"

definition lower_char :: "char \<Rightarrow> char" where
  "lower_char c =
     (let n = (of_char c :: nat) in if 65 \<le> n \<and> n \<le> 90 then char_of (n + 32) else c)"

definition lower :: "string \<Rightarrow> string" where
  "lower s = map lower_char s"

definition sep :: char where
  "sep = CHR ''/''"

text \<open>\<^verbatim>\<open>os.path.basename(p)\<close> is \<^verbatim>\<open>p[p.rfind('/') + 1:]\<close>.\<close>

definition basename :: "string \<Rightarrow> string" where
  "basename p = rev (takeWhile (\<lambda>c. c \<noteq> sep) (rev p))"

text \<open>
  \<^verbatim>\<open>os.path.dirname(p)\<close>: everything up to the last separator, with trailing separators
  removed unless the head consists of separators only.
\<close>

definition dirname :: "string \<Rightarrow> string" where
  "dirname p =
     (let head = rev (dropWhile (\<lambda>c. c \<noteq> sep) (rev p))
      in if \<forall>c \<in> set head. c = sep then head
         else rev (dropWhile (\<lambda>c. c = sep) (rev head)))"

text \<open>\<^verbatim>\<open>os.path.join(a, b)\<close> with two arguments.\<close>

definition join :: "string \<Rightarrow> string \<Rightarrow> string" where
  "join a b =
     (if startswith b [sep] then b
      else if a = [] \<or> endswith a [sep] then a @ b
      else a @ [sep] @ b)"

text \<open>
  \<^verbatim>\<open>os.path.splitext(p)\<close>: the extension starts at the last dot of the last path
  component, unless only dots come before it in that component.
\<close>

definition splitext :: "string \<Rightarrow> string \<times> string" where
  "splitext p =
     (let b = basename p
      in if CHR ''.'' \<in> set (dropWhile (\<lambda>c. c = CHR ''.'') b)
         then (let ext = CHR ''.'' # rev (takeWhile (\<lambda>c. c \<noteq> CHR ''.'') (rev b))
               in (take (length p - length ext) p, ext))
         else (p, []))"

subsection \<open>Python's \<^verbatim>\<open>int(str)\<close>\<close>

text \<open>
  \<^verbatim>\<open>int(s)\<close> in base 10: surrounding ASCII whitespace is stripped, one sign is allowed,
  then come decimal digits, where single underscores may separate digits. Anything else
  is a \<^verbatim>\<open>ValueError\<close>, here \<open>None\<close>. (Digits outside ASCII and the interpreter's limit on
  the number of digits are not modelled.)
\<close>

definition is_space :: "char \<Rightarrow> bool" where
  "is_space c = (let n = (of_char c :: nat) in (9 \<le> n \<and> n \<le> 13) \<or> n = 32)"

definition is_digit :: "char \<Rightarrow> bool" where
  "is_digit c = (let n = (of_char c :: nat) in 48 \<le> n \<and> n \<le> 57)"

definition digit_val :: "char \<Rightarrow> int" where
  "digit_val c = int (of_char c) - 48"

definition strip :: "string \<Rightarrow> string" where
  "strip s = rev (dropWhile is_space (rev (dropWhile is_space s)))"

text \<open>\<open>py_digits acc s\<close> reads what follows a digit; \<open>acc\<close> is the value read so far.\<close>

fun py_digits :: "int \<Rightarrow> string \<Rightarrow> int option" where
  "py_digits acc [] = Some acc"
| "py_digits acc [c] = (if is_digit c then Some (acc * 10 + digit_val c) else None)"
| "py_digits acc (c # d # cs) =
     (if is_digit c then py_digits (acc * 10 + digit_val c) (d # cs)
      else if c = CHR ''_'' \<and> is_digit d then py_digits (acc * 10 + digit_val d) cs
      else None)"

definition py_unsigned :: "string \<Rightarrow> int option" where
  "py_unsigned s =
     (case s of [] \<Rightarrow> None
      | c # cs \<Rightarrow> if is_digit c then py_digits (digit_val c) cs else None)"

definition py_int :: "string \<Rightarrow> int option" where
  "py_int s =
     (case strip s of [] \<Rightarrow> None
      | c # cs \<Rightarrow>
          if c = CHR ''-'' then map_option uminus (py_unsigned cs)
          else if c = CHR ''+'' then py_unsigned cs
          else py_unsigned (c # cs))"

section \<open>Images and the disk\<close>

text \<open>
  A decoded image is a numpy array: its \<^verbatim>\<open>dtype\<close> name and its integer samples.
  \<^verbatim>\<open>img_array / 256\<close> is numpy's true division; for the sample values of integer
  images up to 32 bits the floating-point quotient by a power of two is exact, so it is
  modelled as a rational. \<^verbatim>\<open>.astype('uint8')\<close> converts each quotient as a C cast does:
  it drops the fraction; where the result does not fit into 8 bits the value is
  platform-specific, here \<open>None\<close>.
\<close>

record img_array =
  dtype :: string
  pixels :: "int list"

definition true_divide :: "int \<Rightarrow> int \<Rightarrow> rat" where
  "true_divide v d = of_int v / of_int d"

definition astype_uint8 :: "rat \<Rightarrow> int option" where
  "astype_uint8 q =
     (let t = (if q < 0 then \<lceil>q\<rceil> else \<lfloor>q\<rfloor>)
      in if 0 \<le> t \<and> t \<le> 255 then Some t else None)"

text \<open>Lines 56--57 of the script: the samples handed to \<^verbatim>\<open>Image.fromarray\<close>.\<close>

definition to_uint8 :: "img_array \<Rightarrow> int option list" where
  "to_uint8 img_array =
     (if dtype img_array \<noteq> ''uint8''
      then map (\<lambda>v. astype_uint8 (true_divide v 256)) (pixels img_array)
      else map Some (pixels img_array))"

text \<open>
  A file is a TIFF that \<^verbatim>\<open>tifffile.imread\<close> decodes, an image written by the converter
  (the samples given to the encoder, and the JPEG quality), or anything else. The disk
  maps a path, as the program spells it, to a file or to a folder with the names of its
  entries.
\<close>

datatype content = Tiff img_array | Jpeg int "int option list" | Png "int option list" | Other

datatype entry = File content | Folder "string list"

text \<open>
  What a run does besides changing the disk: the lines it prints (\<open>Error_processing\<close>,
  \<open>Modulo_skipped\<close>, \<open>Processing\<close>, \<open>Time_to_complete\<close>, one per \<^verbatim>\<open>print\<close> statement, without
  the exception text and the measured time), the files it opens for reading and writes,
  the directories \<^verbatim>\<open>os.walk\<close> yields and the folders \<^verbatim>\<open>convert_tif\<close> is called on.
\<close>

datatype event =
    Error_processing string
  | Modulo_skipped
  | Processing string string int
  | Time_to_complete
  | Imread string
  | Saved string
  | Walked string
  | Converting string

record state =
  disk :: "string \<Rightarrow> entry option"
  events :: "event list"

datatype error = ValueError | ZeroDivisionError | FileNotFoundError | NotADirectoryError

definition emit :: "event \<Rightarrow> state \<Rightarrow> state" where
  "emit e \<sigma> = \<sigma>\<lparr>events := events \<sigma> @ [e]\<rparr>"

definition exists :: "state \<Rightarrow> string \<Rightarrow> bool" where
  "exists \<sigma> p = (disk \<sigma> p \<noteq> None)"

definition listdir :: "state \<Rightarrow> string \<Rightarrow> error + string list" where
  "listdir \<sigma> p =
     (case disk \<sigma> p of
        Some (Folder names) \<Rightarrow> Inr names
      | Some (File f) \<Rightarrow> Inl NotADirectoryError
      | None \<Rightarrow> Inl FileNotFoundError)"

definition add_entry ::
  "string \<Rightarrow> string \<Rightarrow> (string \<Rightarrow> entry option) \<Rightarrow> (string \<Rightarrow> entry option)" where
  "add_entry d n m =
     (case m d of
        Some (Folder names) \<Rightarrow> m(d \<mapsto> Folder (if n \<in> set names then names else names @ [n]))
      | _ \<Rightarrow> m)"

text \<open>
  \<^verbatim>\<open>os.makedirs(p)\<close>, called only when \<open>p\<close> does not exist: the folder appears, empty, and
  in the listing of its parent when the parent is on the disk. (Missing intermediate
  directories are not recorded, and the call is taken to succeed.)
\<close>

definition makedirs :: "string \<Rightarrow> state \<Rightarrow> state" where
  "makedirs p \<sigma> = \<sigma>\<lparr>disk := (add_entry (dirname p) (basename p) (disk \<sigma>))(p \<mapsto> Folder [])\<rparr>"

definition imread :: "state \<Rightarrow> string \<Rightarrow> img_array option" where
  "imread \<sigma> p = (case disk \<sigma> p of Some (File (Tiff a)) \<Rightarrow> Some a | _ \<Rightarrow> None)"

text \<open>
  \<^verbatim>\<open>img.save(p, ...)\<close> writes the file \<open>p\<close>; it raises (\<open>None\<close>) when the parent of \<open>p\<close> is
  not a folder or \<open>p\<close> is one. (The encoder is taken to accept every decoded image.)
\<close>

definition save :: "string \<Rightarrow> content \<Rightarrow> state \<Rightarrow> state option" where
  "save p f \<sigma> =
     (case disk \<sigma> (dirname p) of
        Some (Folder names) \<Rightarrow>
          (case disk \<sigma> p of
             Some (Folder ns) \<Rightarrow> None
           | _ \<Rightarrow> Some (emit (Saved p)
                  (\<sigma>\<lparr>disk := (add_entry (dirname p) (basename p) (disk \<sigma>))(p \<mapsto> File f)\<rparr>)))
      | _ \<Rightarrow> None)"

section \<open>The Single-File Converter\<close>

text \<open>
  \<^verbatim>\<open>convert_single_tif\<close> (lines 46--66). Every exception of the body is caught and
  printed, so the function always returns. Reading fails on anything that is not a TIFF
  file.
\<close>

definition convert_single_tif ::
  "string \<Rightarrow> string \<Rightarrow> string \<Rightarrow> int \<Rightarrow> bool \<Rightarrow> state \<Rightarrow> state" where
  "convert_single_tif file_path dest_folder output_format quality overwrite \<sigma> =
     (let filename = basename file_path;
          dest_file_path = join dest_folder (fst (splitext filename) @ ''.'' @ output_format)
      in if \<not> overwrite \<and> exists \<sigma> dest_file_path then \<sigma>
         else
           (let \<sigma>1 = emit (Imread file_path) \<sigma>
            in case imread \<sigma> file_path of
                 None \<Rightarrow> emit (Error_processing file_path) \<sigma>1
               | Some img_array \<Rightarrow>
                   (let img = to_uint8 img_array
                    in if output_format = ''jpg'' then
                         (case save dest_file_path (Jpeg quality img) \<sigma>1 of
                            None \<Rightarrow> emit (Error_processing file_path) \<sigma>1
                          | Some \<sigma>2 \<Rightarrow> \<sigma>2)
                       else if output_format = ''png'' then
                         (case save dest_file_path (Png img) \<sigma>1 of
                            None \<Rightarrow> emit (Error_processing file_path) \<sigma>1
                          | Some \<sigma>2 \<Rightarrow> \<sigma>2)
                       else \<sigma>1)))"

text \<open>Line 49: the destination of one file.\<close>

definition dest_file_of :: "string \<Rightarrow> string \<Rightarrow> string \<Rightarrow> string" where
  "dest_file_of dest_folder output_format file_path =
     join dest_folder (fst (splitext (basename file_path)) @ ''.'' @ output_format)"

section \<open>The Folder Converter\<close>

text \<open>Lines 80--81: the candidate files of a folder with the entries \<open>names\<close>.\<close>

definition is_tif :: "string \<Rightarrow> bool" where
  "is_tif f =
     ((endswith (lower f) ''.tif'' \<or> endswith (lower f) ''.tiff'') \<and> \<not> startswith f ''._'')"

definition tif_candidates :: "string \<Rightarrow> string list \<Rightarrow> string list" where
  "tif_candidates source_folder names = sort (map (join source_folder) (filter is_tif names))"

text \<open>
  Line 87: the list comprehension evaluates \<^verbatim>\<open>int(stem) % mod_value == 0\<close> file by file, in
  order; the first exception ends it.
\<close>

fun keep_divisible :: "int \<Rightarrow> string list \<Rightarrow> error + string list" where
  "keep_divisible m [] = Inr []"
| "keep_divisible m (f # fs) =
     (case py_int (fst (splitext (basename f))) of
        None \<Rightarrow> Inl ValueError
      | Some k \<Rightarrow>
          if m = 0 then Inl ZeroDivisionError
          else (case keep_divisible m fs of
                  Inl e \<Rightarrow> Inl e
                | Inr kept \<Rightarrow> Inr (if k mod m = 0 then f # kept else kept)))"

text \<open>
  Lines 84--89: the \<^verbatim>\<open>try\<close> block holds both the parse of the modulo value and the list
  comprehension, and its handler catches \<^verbatim>\<open>ValueError\<close>: then the list is left as it was
  and the warning is printed. The result is the new list and what was printed.
\<close>

definition modulo_filter ::
  "string option \<Rightarrow> string list \<Rightarrow> error + (string list \<times> event list)" where
  "modulo_filter mod_value tif_files =
     (case mod_value of
        None \<Rightarrow> Inr (tif_files, [])
      | Some v \<Rightarrow>
          (case py_int v of
             None \<Rightarrow> Inr (tif_files, [Modulo_skipped])
           | Some m \<Rightarrow>
               (case keep_divisible m tif_files of
                  Inl ValueError \<Rightarrow> Inr (tif_files, [Modulo_skipped])
                | Inl e \<Rightarrow> Inl e
                | Inr kept \<Rightarrow> Inr (kept, []))))"

definition dest_folder_of :: "string \<Rightarrow> string \<Rightarrow> string option \<Rightarrow> string" where
  "dest_folder_of source_folder output_format output_path =
     (let dest_folder_suffix = (if output_format = ''jpg'' then ''_jpg'' else ''_png'')
      in case output_path of
           Some p \<Rightarrow> p @ dest_folder_suffix
         | None \<Rightarrow> source_folder @ dest_folder_suffix)"

text \<open>
  \<^verbatim>\<open>convert_tif\<close> (lines 68--96). The result is the exception that left the function, if
  any, and the state at that point. The jobs of the process pool are independent and the
  function waits for all of them; they are run here one after the other in the order of
  submission.
\<close>

definition convert_tif ::
  "string \<Rightarrow> string \<Rightarrow> int \<Rightarrow> bool \<Rightarrow> string option \<Rightarrow> string option \<Rightarrow> state
     \<Rightarrow> error option \<times> state" where
  "convert_tif source_folder output_format quality overwrite mod_value output_path \<sigma> =
     (let \<sigma>0 = emit (Converting source_folder) \<sigma>;
          dest_folder = dest_folder_of source_folder output_format output_path;
          \<sigma>1 = (if \<not> exists \<sigma>0 dest_folder then makedirs dest_folder \<sigma>0 else \<sigma>0)
      in case listdir \<sigma>1 source_folder of
           Inl e \<Rightarrow> (Some e, \<sigma>1)
         | Inr names \<Rightarrow>
             (case modulo_filter mod_value (tif_candidates source_folder names) of
                Inl e \<Rightarrow> (Some e, \<sigma>1)
              | Inr (tif_files, printed) \<Rightarrow>
                  (None,
                   foldl (\<lambda>\<sigma>' file_path.
                            convert_single_tif file_path dest_folder output_format quality
                              overwrite \<sigma>')
                     (\<sigma>1\<lparr>events := events \<sigma>1 @ printed\<rparr>) (sort tif_files))))"

text \<open>Lines 69--77 of \<^verbatim>\<open>convert_tif\<close>: the state once the destination folder exists.\<close>

definition prepared :: "string \<Rightarrow> string \<Rightarrow> string option \<Rightarrow> state \<Rightarrow> state" where
  "prepared source_folder output_format output_path \<sigma> =
     (let \<sigma>0 = emit (Converting source_folder) \<sigma>;
          dest_folder = dest_folder_of source_folder output_format output_path
      in if \<not> exists \<sigma>0 dest_folder then makedirs dest_folder \<sigma>0 else \<sigma>0)"

text \<open>Lines 93--96: the jobs, one per file, in order.\<close>

definition submit :: "string \<Rightarrow> string \<Rightarrow> int \<Rightarrow> bool \<Rightarrow> state \<Rightarrow> string list \<Rightarrow> state" where
  "submit dest_folder output_format quality overwrite \<sigma> tif_files =
     foldl (\<lambda>\<sigma>' file_path.
              convert_single_tif file_path dest_folder output_format quality overwrite \<sigma>')
       \<sigma> tif_files"

section \<open>The Tree Walker\<close>

text \<open>
  What \<^verbatim>\<open>os.walk\<close> finds when it lists a directory: its entries by name, each a directory
  again or something else. \<^verbatim>\<open>os.walk\<close> lists a directory when it reaches it; with the
  default \<^verbatim>\<open>output_path\<close> the folders that \<^verbatim>\<open>convert_tif\<close> creates are siblings of
  directories already listed, so the walk sees the tree as it was at the start. The tree
  is given beside the state of the disk; the properties below hold for every tree and
  every state.
\<close>

datatype fs_tree = Plain | Directory "(string \<times> fs_tree) list"

fun is_directory :: "fs_tree \<Rightarrow> bool" where
  "is_directory (Directory entries) = True"
| "is_directory Plain = False"

definition upper_char :: "char \<Rightarrow> char" where
  "upper_char c =
     (let n = (of_char c :: nat) in if 97 \<le> n \<and> n \<le> 122 then char_of (n - 32) else c)"

definition upper :: "string \<Rightarrow> string" where
  "upper s = map upper_char s"

text \<open>Lines 110--114: the loop over the subdirectories of a matching folder.\<close>

fun convert_subdirs ::
  "string \<Rightarrow> string list \<Rightarrow> string \<Rightarrow> int \<Rightarrow> bool \<Rightarrow> string option \<Rightarrow> string option
     \<Rightarrow> state \<Rightarrow> error option \<times> state" where
  "convert_subdirs root' [] output_format quality overwrite mod_value output_path \<sigma> =
     (None, \<sigma>)"
| "convert_subdirs root' (sub_dir # dirs) output_format quality overwrite mod_value
     output_path \<sigma> =
     (if \<not> (endswith sub_dir ''_jpg'' \<or> endswith sub_dir ''_png'') then
        (let specific_folder_path = join root' sub_dir;
             \<sigma>1 = emit (Processing specific_folder_path (upper output_format) quality) \<sigma>
         in case convert_tif specific_folder_path output_format quality overwrite mod_value
                   output_path \<sigma>1 of
              (Some e, \<sigma>2) \<Rightarrow> (Some e, \<sigma>2)
            | (None, \<sigma>2) \<Rightarrow>
                convert_subdirs root' dirs output_format quality overwrite mod_value
                  output_path \<sigma>2)
      else convert_subdirs root' dirs output_format quality overwrite mod_value
             output_path \<sigma>)"


text \<open>
  Lines 100--119: the body of the loop for one \<^verbatim>\<open>(root, dirs, files)\<close> of the walk. It
  returns the exception that left it, if any, the list \<^verbatim>\<open>dirs\<close> as the body leaves it
  (\<^verbatim>\<open>os.walk\<close> descends into these) and the state.
\<close>

definition loop_body ::
  "string \<Rightarrow> string list \<Rightarrow> string list \<Rightarrow> string \<Rightarrow> int \<Rightarrow> bool \<Rightarrow> string option
     \<Rightarrow> string option \<Rightarrow> state \<Rightarrow> error option \<times> string list \<times> state" where
  "loop_body root' dirs target_types output_format quality overwrite mod_value output_path \<sigma> =
     (if endswith root' ''.zarr'' then (None, [], \<sigma>)
      else if basename root' \<in> set target_types then
        (case (if basename root' \<noteq> ''layers''
               then convert_subdirs root' dirs output_format quality overwrite mod_value
                      output_path \<sigma>
               else convert_tif root' output_format quality overwrite mod_value
                      output_path \<sigma>) of
           (Some e, \<sigma>1) \<Rightarrow> (Some e, dirs, \<sigma>1)
         | (None, \<sigma>1) \<Rightarrow> (None, dirs, emit Time_to_complete \<sigma>1))
      else (None, dirs, \<sigma>))"

text \<open>
  \<^verbatim>\<open>for root, dirs, files in os.walk(top)\<close>, top-down: the directory is listed and
  yielded, the body runs, then the walk descends into each name left in \<^verbatim>\<open>dirs\<close>, in
  order. A path that is not a directory yields nothing: \<^verbatim>\<open>os.walk\<close> ignores the error
  of listing it.
\<close>

fun walk ::
  "string \<Rightarrow> fs_tree \<Rightarrow> string list \<Rightarrow> string \<Rightarrow> int \<Rightarrow> bool \<Rightarrow> string option
     \<Rightarrow> string option \<Rightarrow> state \<Rightarrow> error option \<times> state" where
  "walk top' Plain target_types output_format quality overwrite mod_value output_path \<sigma> =
     (None, \<sigma>)"
| "walk top' (Directory entries) target_types output_format quality overwrite mod_value
     output_path \<sigma> =
     (let dirs = map fst (filter (\<lambda>(n, t). is_directory t) entries)
      in case loop_body top' dirs target_types output_format quality overwrite mod_value
                output_path (emit (Walked top') \<sigma>) of
           (Some e, dirs', \<sigma>1) \<Rightarrow> (Some e, \<sigma>1)
         | (None, dirs', \<sigma>1) \<Rightarrow>
             foldl (\<lambda>r (n, t).
                      case r of
                        (Some e, \<sigma>2) \<Rightarrow> (Some e, \<sigma>2)
                      | (None, \<sigma>2) \<Rightarrow>
                          walk (join top' n) t target_types output_format quality overwrite
                            mod_value output_path \<sigma>2)
               (None, \<sigma>1)
               (filter (\<lambda>(n, t). is_directory t \<and> n \<in> set dirs') entries))"

text \<open>
  \<^verbatim>\<open>process_specific_folders\<close> (lines 98--119). \<open>top'\<close> is what is found at
  \<^verbatim>\<open>root_directory\<close>: nothing, or a tree.
\<close>

definition process_specific_folders ::
  "string \<Rightarrow> fs_tree option \<Rightarrow> string list \<Rightarrow> string \<Rightarrow> int \<Rightarrow> bool \<Rightarrow> string option
     \<Rightarrow> string option \<Rightarrow> state \<Rightarrow> error option \<times> state" where
  "process_specific_folders root_directory top' target_types output_format quality overwrite
     mod_value output_path \<sigma> =
     (case top' of
        None \<Rightarrow> (None, \<sigma>)
      | Some t \<Rightarrow>
          walk root_directory t target_types output_format quality overwrite mod_value
            output_path \<sigma>)"

section \<open>Reading the log\<close>

text \<open>The folders \<^verbatim>\<open>convert_tif\<close> was called on, and the directories the walk yielded.\<close>

fun converted :: "event list \<Rightarrow> string list" where
  "converted [] = []"
| "converted (Converting p # es) = p # converted es"
| "converted (e # es) = converted es"

fun walked :: "event list \<Rightarrow> string list" where
  "walked [] = []"
| "walked (Walked p # es) = p # walked es"
| "walked (e # es) = walked es"



section \<open>Vocabulary of the properties\<close>




text \<open>A file for which \<^verbatim>\<open>convert_single_tif\<close> without overwriting writes nothing: its destination
  is there, or it is not a readable TIFF, or the format is not written, or the
  destination folder is not a folder.\<close>

definition settled ::
  "string \<Rightarrow> string \<Rightarrow> (string \<Rightarrow> entry option) \<Rightarrow> string \<Rightarrow> bool" where
  "settled dest_folder output_format m file_path =
     (m (dest_file_of dest_folder output_format file_path) \<noteq> None
      \<or> (\<forall>a. m file_path \<noteq> Some (File (Tiff a)))
      \<or> (output_format \<noteq> ''jpg'' \<and> output_format \<noteq> ''png'')
      \<or> (\<forall>names. m (dirname (dest_file_of dest_folder output_format file_path))
                    \<noteq> Some (Folder names)))"

text \<open>What the converter does to a disk: nothing disappears, no TIFF and no folder appears,
  and the candidates of every folder stay the same.\<close>

definition extends :: "(string \<Rightarrow> entry option) \<Rightarrow> (string \<Rightarrow> entry option) \<Rightarrow> bool" where
  "extends m m' =
     (\<forall>k. (m k \<noteq> None \<longrightarrow> m' k \<noteq> None)
        \<and> (\<forall>a. m' k = Some (File (Tiff a)) \<longrightarrow> m k = Some (File (Tiff a)))
        \<and> (\<forall>ns'. m' k = Some (Folder ns') \<longrightarrow> (\<exists>ns. m k = Some (Folder ns)))
        \<and> (\<forall>ns. m k = Some (Folder ns) \<longrightarrow>
              (\<exists>ns'. m' k = Some (Folder ns') \<and> filter is_tif ns' = filter is_tif ns)))"

section \<open>Example inputs\<close>

definition ex_skip_state :: state where
  "ex_skip_state =
     \<lparr>disk = Map.empty(''out_jpg'' \<mapsto> Folder [''7.jpg''], ''out_jpg/7.jpg'' \<mapsto> File Other),
      events = []\<rparr>"





definition ex_named :: state where
  "ex_named = \<lparr>disk = Map.empty(''d'' \<mapsto> Folder [''a.tif'', ''1.tif'']), events = []\<rparr>"

definition ex_scan :: entry where
  "ex_scan = File (Tiff \<lparr>dtype = ''uint16'', pixels = [0, 256]\<rparr>)"

definition ex_volumes_tree :: fs_tree where
  "ex_volumes_tree =
     Directory [(''volumes'', Directory
       [(''volA'', Directory [(''0.tif'', Plain), (''1.tif'', Plain), (''2.tif'', Plain)]),
        (''volB'', Directory [(''0.tif'', Plain), (''1.tif'', Plain)])])]"

definition ex_volumes :: state where
  "ex_volumes =
     \<lparr>disk = Map.empty(
        ''r'' \<mapsto> Folder [''volumes''],
        ''r/volumes'' \<mapsto> Folder [''volA'', ''volB''],
        ''r/volumes/volA'' \<mapsto> Folder [''0.tif'', ''1.tif'', ''2.tif''],
        ''r/volumes/volB'' \<mapsto> Folder [''0.tif'', ''1.tif''],
        ''r/volumes/volA/0.tif'' \<mapsto> ex_scan,
        ''r/volumes/volA/1.tif'' \<mapsto> ex_scan,
        ''r/volumes/volA/2.tif'' \<mapsto> ex_scan,
        ''r/volumes/volB/0.tif'' \<mapsto> ex_scan,
        ''r/volumes/volB/1.tif'' \<mapsto> ex_scan),
      events = []\<rparr>"

definition ex_zarr_tree :: fs_tree where
  "ex_zarr_tree =
     Directory [(''foo.zarr'', Directory [(''bar'', Directory
                   [(''layers'', Directory [(''0.tif'', Plain)])])]),
                (''layers'', Directory [(''0.tif'', Plain)])]"

definition ex_zarr :: state where
  "ex_zarr =
     \<lparr>disk = Map.empty(
        ''r'' \<mapsto> Folder [''foo.zarr'', ''layers''],
        ''r/foo.zarr'' \<mapsto> Folder [''bar''],
        ''r/foo.zarr/bar'' \<mapsto> Folder [''layers''],
        ''r/foo.zarr/bar/layers'' \<mapsto> Folder [''0.tif''],
        ''r/foo.zarr/bar/layers/0.tif'' \<mapsto> ex_scan,
        ''r/layers'' \<mapsto> Folder [''0.tif''],
        ''r/layers/0.tif'' \<mapsto> ex_scan),
      events = []\<rparr>"



section \<open>Strings and paths: lemmas\<close>

lemma endswith_iff: "endswith s suf \<longleftrightarrow> (\<exists>pre. s = pre @ suf)"
proof
  assume "endswith s suf"
  then have "s = take (length s - length suf) s @ suf"
    by (metis append_take_drop_id endswith_def)
  then show "\<exists>pre. s = pre @ suf" ..
next
  assume "\<exists>pre. s = pre @ suf"
  then show "endswith s suf" by (auto simp: endswith_def)
qed

lemma endswith_last: "endswith s suf \<Longrightarrow> suf \<noteq> [] \<Longrightarrow> s \<noteq> [] \<and> last s = last suf"
  by (auto simp: endswith_iff)

lemma last_lower: "s \<noteq> [] \<Longrightarrow> last (lower s) = lower_char (last s)"
  by (simp add: lower_def last_map)

lemma is_tif_last: "is_tif f \<Longrightarrow> f \<noteq> [] \<and> lower_char (last f) = CHR ''f''"
proof -
  assume a: "is_tif f"
  then have "endswith (lower f) ''.tif'' \<or> endswith (lower f) ''.tiff''"
    by (simp add: is_tif_def)
  then have "lower f \<noteq> [] \<and> last (lower f) = CHR ''f''"
    using endswith_last[of "lower f" "''.tif''"] endswith_last[of "lower f" "''.tiff''"]
    by auto
  then show ?thesis using last_lower[of f] by (auto simp: lower_def)
qed

lemma not_tif_g: "f \<noteq> [] \<Longrightarrow> last f = CHR ''g'' \<Longrightarrow> \<not> is_tif f"
  using is_tif_last[of f] by (auto simp: lower_char_def)

lemma basename_snoc: "y \<noteq> sep \<Longrightarrow> basename (ys @ [y]) = basename ys @ [y]"
  by (simp add: basename_def)

lemma last_basename:
  "p \<noteq> [] \<Longrightarrow> last p \<noteq> sep \<Longrightarrow> basename p \<noteq> [] \<and> last (basename p) = last p"
  by (cases p rule: rev_cases) (simp_all add: basename_snoc)

lemma last_join: "b \<noteq> [] \<Longrightarrow> join a b \<noteq> [] \<and> last (join a b) = last b"
  by (auto simp: join_def)




section \<open>The log: lemmas\<close>





section \<open>The Single-File Converter: properties\<close>

text \<open>
  C5. When \<^verbatim>\<open>overwrite\<close> is false and the destination file exists, \<^verbatim>\<open>convert_single_tif\<close>
  returns the state it was given: the disk is unchanged, the source is not opened and
  nothing is printed, whatever the source path, destination folder, format and quality.
\<close>

theorem skip_existing:
  assumes "\<not> overwrite"
    and "exists \<sigma>
           (join dest_folder (fst (splitext (basename file_path)) @ ''.'' @ output_format))"
  shows "convert_single_tif file_path dest_folder output_format quality overwrite \<sigma> = \<sigma>"
  using assms by (simp add: convert_single_tif_def Let_def)

theorem skip_existing_witness:
  "\<not> False
   \<and> exists ex_skip_state
       (join ''out_jpg'' (fst (splitext (basename ''in/7.tif'')) @ ''.'' @ ''jpg''))
   \<and> convert_single_tif ''in/7.tif'' ''out_jpg'' ''jpg'' 95 False ex_skip_state = ex_skip_state"
proof -
  have h: "exists ex_skip_state
             (join ''out_jpg'' (fst (splitext (basename ''in/7.tif'')) @ ''.'' @ ''jpg''))"
    by code_simp
  show ?thesis
    using h skip_existing [of False ex_skip_state "''out_jpg''" "''in/7.tif''" "''jpg''" 95]
    by simp
qed





subsection \<open>Its events and its writes\<close>


lemma extends_refl: "extends m m"
  by (simp add: extends_def)

lemma extends_at:
  "extends m m' \<Longrightarrow>
   (m k \<noteq> None \<longrightarrow> m' k \<noteq> None)
   \<and> (\<forall>a. m' k = Some (File (Tiff a)) \<longrightarrow> m k = Some (File (Tiff a)))
   \<and> (\<forall>ns'. m' k = Some (Folder ns') \<longrightarrow> (\<exists>ns. m k = Some (Folder ns)))
   \<and> (\<forall>ns. m k = Some (Folder ns) \<longrightarrow>
         (\<exists>ns'. m' k = Some (Folder ns') \<and> filter is_tif ns' = filter is_tif ns))"
  unfolding extends_def by (erule allE[of _ k])

lemma extends_trans:
  assumes "extends a b" and "extends b c"
  shows "extends a c"
  unfolding extends_def
proof (intro allI conjI impI)
  fix k
  note A = extends_at[OF assms(1), of k] and B = extends_at[OF assms(2), of k]
  show "c k \<noteq> None" if "a k \<noteq> None" using that A B by blast
  show "a k = Some (File (Tiff x))" if "c k = Some (File (Tiff x))" for x using that A B by blast
  show "\<exists>ns. a k = Some (Folder ns)" if "c k = Some (Folder ns')" for ns' using that A B by blast
  show "\<exists>ns'. c k = Some (Folder ns') \<and> filter is_tif ns' = filter is_tif ns"
    if h: "a k = Some (Folder ns)" for ns
  proof -
    obtain n1 where n1: "b k = Some (Folder n1)" "filter is_tif n1 = filter is_tif ns"
      using h A by blast
    obtain n2 where n2: "c k = Some (Folder n2)" "filter is_tif n2 = filter is_tif n1"
      using n1(1) B by blast
    show ?thesis using n1(2) n2 by simp
  qed
qed

lemma write_extends:
  assumes "m d = Some (Folder names)" and "\<forall>ns. m p \<noteq> Some (Folder ns)"
    and "\<not> is_tif n" and "\<forall>a. f \<noteq> Tiff a"
  shows "extends m ((add_entry d n m)(p \<mapsto> File f))"
proof -
  have pd: "p \<noteq> d" using assms(1,2) by auto
  obtain names2 where a: "add_entry d n m = m(d \<mapsto> Folder names2)"
    and t: "filter is_tif names2 = filter is_tif names"
    using assms(1,3) by (simp add: add_entry_def)
  show ?thesis
    unfolding extends_def a using assms(1,2,4) pd t by auto
qed

lemma dest_file_not_tif:
  assumes "output_format = ''jpg'' \<or> output_format = ''png''"
  shows "\<not> is_tif (basename (dest_file_of dest_folder output_format file_path))"
proof -
  let ?b = "fst (splitext (basename file_path)) @ ''.'' @ output_format"
  have "?b \<noteq> [] \<and> last ?b = CHR ''g''" using assms by auto
  then have "dest_file_of dest_folder output_format file_path \<noteq> []
      \<and> last (dest_file_of dest_folder output_format file_path) = CHR ''g''"
    using last_join[of ?b dest_folder] by (simp add: dest_file_of_def)
  moreover have "sep \<noteq> CHR ''g''" by (simp add: sep_def)
  ultimately show ?thesis
    using last_basename[of "dest_file_of dest_folder output_format file_path"] not_tif_g
    by metis
qed

lemma save_disk:
  "save p f \<sigma> = Some \<sigma>' \<Longrightarrow>
   (\<exists>names. disk \<sigma> (dirname p) = Some (Folder names)) \<and> (\<forall>ns. disk \<sigma> p \<noteq> Some (Folder ns))
   \<and> disk \<sigma>' = (add_entry (dirname p) (basename p) (disk \<sigma>))(p \<mapsto> File f)"
  by (auto simp: save_def emit_def split: option.splits entry.splits)

lemma job_extends:
  "extends (disk \<sigma>) (disk (convert_single_tif file_path dest_folder output_format quality
     overwrite \<sigma>))"
proof -
  let ?p = "dest_file_of dest_folder output_format file_path"
  let ?s1 = "emit (Imread file_path) \<sigma>"
  have d1: "disk ?s1 = disk \<sigma>" by (simp add: emit_def)
  have sv: "extends (disk \<sigma>) (disk \<sigma>')"
    if "save ?p f ?s1 = Some \<sigma>'" "\<forall>a. f \<noteq> Tiff a" "output_format = ''jpg'' \<or> output_format = ''png''"
    for f \<sigma>'
  proof -
    from save_disk[OF that(1)] obtain names where
      s: "disk \<sigma> (dirname ?p) = Some (Folder names)" "\<forall>ns. disk \<sigma> ?p \<noteq> Some (Folder ns)"
      "disk \<sigma>' = (add_entry (dirname ?p) (basename ?p) (disk \<sigma>))(?p \<mapsto> File f)"
      unfolding d1 by blast
    show ?thesis
      unfolding s(3)
      using write_extends[OF s(1) s(2) dest_file_not_tif[OF that(3)] that(2)] .
  qed
  show ?thesis
    unfolding convert_single_tif_def Let_def dest_file_of_def[symmetric]
    using sv by (auto simp: extends_refl emit_def split: option.splits)
qed

lemma job_settled_same:
  assumes "settled dest_folder output_format (disk \<sigma>) file_path"
  shows "disk (convert_single_tif file_path dest_folder output_format quality False \<sigma>) = disk \<sigma>"
proof -
  let ?p = "dest_file_of dest_folder output_format file_path"
  let ?s1 = "emit (Imread file_path) \<sigma>"
  have d1: "disk ?s1 = disk \<sigma>" by (simp add: emit_def)
  show ?thesis
  proof (cases "exists \<sigma> ?p")
    case True
    then show ?thesis by (simp add: convert_single_tif_def Let_def dest_file_of_def)
  next
    case False
    then have np: "disk \<sigma> ?p = None" by (simp add: exists_def)
    show ?thesis
    proof (cases "imread \<sigma> file_path")
      case None
      then show ?thesis
        using False by (simp add: convert_single_tif_def Let_def dest_file_of_def emit_def)
    next
      case (Some a)
      then have "disk \<sigma> file_path = Some (File (Tiff a))"
        by (auto simp: imread_def split: option.splits entry.splits content.splits)
      then have c: "(output_format \<noteq> ''jpg'' \<and> output_format \<noteq> ''png'')
          \<or> (\<forall>names. disk \<sigma> (dirname ?p) \<noteq> Some (Folder names))"
        using assms np by (auto simp: settled_def)
      have sv: "save ?p f ?s1 = None" if "\<forall>names. disk \<sigma> (dirname ?p) \<noteq> Some (Folder names)" for f
        using that by (auto simp: save_def emit_def split: option.splits entry.splits)
      show ?thesis
        using False Some c sv
        unfolding convert_single_tif_def Let_def dest_file_of_def[symmetric]
        by (auto simp: emit_def)
    qed
  qed
qed

lemma job_settles:
  "settled dest_folder output_format
     (disk (convert_single_tif file_path dest_folder output_format quality False \<sigma>)) file_path"
proof (cases "settled dest_folder output_format (disk \<sigma>) file_path")
  case True
  then show ?thesis using job_settled_same by simp
next
  case False
  let ?p = "dest_file_of dest_folder output_format file_path"
  let ?s1 = "emit (Imread file_path) \<sigma>"
  obtain a names where u: "disk \<sigma> ?p = None" "disk \<sigma> file_path = Some (File (Tiff a))"
    "output_format = ''jpg'' \<or> output_format = ''png''"
    "disk \<sigma> (dirname ?p) = Some (Folder names)"
    using False by (auto simp: settled_def)
  have e: "\<not> exists \<sigma> ?p" using u(1) by (simp add: exists_def)
  have r: "imread \<sigma> file_path = Some a" using u(2) by (simp add: imread_def)
  have sv: "\<exists>\<sigma>'. save ?p f ?s1 = Some \<sigma>' \<and> disk \<sigma>' ?p = Some (File f)" for f
    using u(1,4) by (simp add: save_def emit_def)
  have "disk (convert_single_tif file_path dest_folder output_format quality False \<sigma>) ?p \<noteq> None"
    using e r u(3) sv[of "Jpeg quality (to_uint8 a)"] sv[of "Png (to_uint8 a)"]
    unfolding convert_single_tif_def Let_def dest_file_of_def[symmetric]
    by auto
  then show ?thesis by (simp add: settled_def)
qed

lemma settled_mono:
  assumes "extends m m'" and "settled dest_folder output_format m file_path"
  shows "settled dest_folder output_format m' file_path"
proof -
  let ?p = "dest_file_of dest_folder output_format file_path"
  note A = extends_at[OF assms(1), of ?p] and B = extends_at[OF assms(1), of file_path]
    and C = extends_at[OF assms(1), of "dirname ?p"]
  show ?thesis
    using assms(2) A B C unfolding settled_def by blast
qed

section \<open>The Folder Converter: properties\<close>

text \<open>
  C7. The candidate files of a folder are the paths of exactly those entries whose
  lowercased name ends in \<^verbatim>\<open>.tif\<close> or \<^verbatim>\<open>.tiff\<close> and that do not begin with \<^verbatim>\<open>._\<close>, one
  per such entry, in ascending lexicographic order of the full path; removing every
  entry that begins with \<^verbatim>\<open>._\<close> from the folder leaves the candidates the same.
\<close>

theorem candidates_exact:
  "set (tif_candidates source_folder names) =
     join source_folder ` {f \<in> set names. (endswith (lower f) ''.tif'' \<or> endswith (lower f) ''.tiff'')
                                     \<and> \<not> startswith f ''._''}
   \<and> sorted (tif_candidates source_folder names)
   \<and> length (tif_candidates source_folder names) = length (filter is_tif names)
   \<and> tif_candidates source_folder names =
       tif_candidates source_folder (filter (\<lambda>f. \<not> startswith f ''._'') names)"
proof -
  have "filter is_tif (filter (\<lambda>f. \<not> startswith f ''._'') names) = filter is_tif names"
    by (induction names) (auto simp: is_tif_def)
  then show ?thesis
    by (auto simp: tif_candidates_def is_tif_def)
qed

theorem candidates_exact_witness:
  "tif_candidates ''d'' [''b.TIF'', ''._a.tif'', ''a.tiff'', ''notes.txt'', ''10.tif'', ''9.tif'']
     = [''d/10.tif'', ''d/9.tif'', ''d/a.tiff'', ''d/b.TIF'']
   \<and> sorted (tif_candidates ''d'' [''b.TIF'', ''._a.tif'', ''a.tiff'', ''notes.txt'', ''10.tif'', ''9.tif''])"
proof -
  have e: "tif_candidates ''d'' [''b.TIF'', ''._a.tif'', ''a.tiff'', ''notes.txt'', ''10.tif'', ''9.tif'']
     = [''d/10.tif'', ''d/9.tif'', ''d/a.tiff'', ''d/b.TIF'']" by code_simp
  have s: "sorted (tif_candidates ''d'' [''b.TIF'', ''._a.tif'', ''a.tiff'', ''notes.txt'', ''10.tif'', ''9.tif''])"
    using candidates_exact [of "''d''" "[''b.TIF'', ''._a.tif'', ''a.tiff'', ''notes.txt'', ''10.tif'', ''9.tif'']"]
    by blast
  show ?thesis using e s by blast
qed

subsection \<open>Modulo filtering\<close>







lemma convert_tif_unfold:
  "convert_tif src fmt q ow mv outp \<sigma> =
     (case listdir (prepared src fmt outp \<sigma>) src of
           Inl e \<Rightarrow> (Some e, prepared src fmt outp \<sigma>)
         | Inr names \<Rightarrow>
             (case modulo_filter mv (tif_candidates src names) of
                Inl e \<Rightarrow> (Some e, prepared src fmt outp \<sigma>)
              | Inr (tif_files, printed) \<Rightarrow>
                  (None, submit (dest_folder_of src fmt outp) fmt q ow
             ((prepared src fmt outp \<sigma>)\<lparr>events := events (prepared src fmt outp \<sigma>) @ printed\<rparr>)
             (sort tif_files))))"
  by (simp only: convert_tif_def prepared_def submit_def Let_def)



















subsection \<open>Events of a run\<close>





subsection \<open>A second run\<close>

lemma submit_Cons:
  "submit dest_folder output_format quality overwrite \<sigma> (f # fs) =
   submit dest_folder output_format quality overwrite
     (convert_single_tif f dest_folder output_format quality overwrite \<sigma>) fs"
  by (simp add: submit_def)

lemma submit_extends:
  "extends (disk \<sigma>) (disk (submit dest_folder output_format quality overwrite \<sigma> fs))"
proof (induction fs arbitrary: \<sigma>)
  case Nil
  then show ?case by (simp add: submit_def extends_refl)
next
  case (Cons f fs)
  show ?case
    unfolding submit_Cons
    using extends_trans[OF job_extends Cons.IH] .
qed

lemma submit_settles:
  "f \<in> set fs \<Longrightarrow>
   settled dest_folder output_format
     (disk (submit dest_folder output_format quality False \<sigma> fs)) f"
proof (induction fs arbitrary: \<sigma>)
  case Nil
  then show ?case by simp
next
  case (Cons g fs)
  show ?case
  proof (cases "f = g")
    case True
    show ?thesis
      unfolding submit_Cons True
      using settled_mono[OF submit_extends job_settles] .
  next
    case False
    then have "f \<in> set fs" using Cons.prems by simp
    then show ?thesis unfolding submit_Cons using Cons.IH by blast
  qed
qed

lemma submit_same:
  "\<forall>f \<in> set fs. settled dest_folder output_format (disk \<sigma>) f \<Longrightarrow>
   disk (submit dest_folder output_format quality False \<sigma> fs) = disk \<sigma>"
proof (induction fs arbitrary: \<sigma>)
  case Nil
  then show ?case by (simp add: submit_def)
next
  case (Cons g fs)
  have s: "disk (convert_single_tif g dest_folder output_format quality False \<sigma>) = disk \<sigma>"
    using Cons.prems job_settled_same by simp
  then have "\<forall>f \<in> set fs. settled dest_folder output_format
      (disk (convert_single_tif g dest_folder output_format quality False \<sigma>)) f"
    using Cons.prems by simp
  then show ?case unfolding submit_Cons using Cons.IH s by metis
qed

lemma prepared_exists: "exists (prepared src fmt outp \<sigma>) (dest_folder_of src fmt outp)"
  by (simp add: prepared_def Let_def exists_def makedirs_def emit_def)

lemma prepared_again:
  "exists \<sigma> (dest_folder_of src fmt outp) \<Longrightarrow> disk (prepared src fmt outp \<sigma>) = disk \<sigma>"
  by (auto simp: prepared_def Let_def exists_def emit_def)

lemma listdir_disk: "disk \<sigma> = disk \<sigma>' \<Longrightarrow> listdir \<sigma> p = listdir \<sigma>' p"
  by (simp add: listdir_def)

lemma listdir_folder: "listdir \<sigma> p = Inr names \<Longrightarrow> disk \<sigma> p = Some (Folder names)"
  by (auto simp: listdir_def split: option.splits entry.splits)

text \<open>
  C6. Running \<^verbatim>\<open>convert_tif\<close> a second time with the same arguments and \<^verbatim>\<open>overwrite\<close> false
  leaves the disk as the first run left it: no file or folder is created and none is
  changed, in the destination folder or anywhere else. This holds for every state and
  every argument, also when the runs end with an exception.
\<close>

theorem convert_tif_idempotent:
  "disk (snd (convert_tif source_folder output_format quality False mod_value output_path
            (snd (convert_tif source_folder output_format quality False mod_value output_path
                    \<sigma>))))
   = disk (snd (convert_tif source_folder output_format quality False mod_value output_path \<sigma>))"
proof -
  let ?D = "dest_folder_of source_folder output_format output_path"
  let ?P1 = "prepared source_folder output_format output_path \<sigma>"
  let ?run = "convert_tif source_folder output_format quality False mod_value output_path"
  let ?s1 = "snd (?run \<sigma>)"
  let ?P2 = "prepared source_folder output_format output_path ?s1"
  have again: "disk ?P2 = disk ?s1" if "extends (disk ?P1) (disk ?s1)"
  proof -
    have "disk ?P1 ?D \<noteq> None" using prepared_exists[of source_folder output_format output_path \<sigma>]
      by (simp add: exists_def)
    then have "exists ?s1 ?D" using extends_at[OF that, of ?D] by (simp add: exists_def)
    then show ?thesis by (rule prepared_again)
  qed
  show ?thesis
  proof (cases "listdir ?P1 source_folder")
    case (Inl e)
    then have s1: "?s1 = ?P1" by (simp add: convert_tif_unfold)
    have d: "disk ?P2 = disk ?s1" using again s1 extends_refl by simp
    have "listdir ?P2 source_folder = Inl e" using listdir_disk[OF d] s1 Inl by simp
    then have "snd (?run ?s1) = ?P2" by (simp add: convert_tif_unfold)
    then show ?thesis using d by simp
  next
    case (Inr names)
    show ?thesis
    proof (cases "modulo_filter mod_value (tif_candidates source_folder names)")
      case (Inl e)
      then have s1: "?s1 = ?P1" using Inr by (simp add: convert_tif_unfold)
      have d: "disk ?P2 = disk ?s1" using again s1 extends_refl by simp
      have "listdir ?P2 source_folder = Inr names" using listdir_disk[OF d] s1 Inr by simp
      then have "snd (?run ?s1) = ?P2" using Inl by (simp add: convert_tif_unfold)
      then show ?thesis using d by simp
    next
      case r: (Inr kp)
      obtain kept printed where kp: "kp = (kept, printed)" by (cases kp)
      let ?P1' = "?P1\<lparr>events := events ?P1 @ printed\<rparr>"
      have s1: "?s1 = submit ?D output_format quality False ?P1' (sort kept)"
        using Inr r kp by (simp add: convert_tif_unfold)
      have ex: "extends (disk ?P1) (disk ?s1)"
        unfolding s1 using submit_extends[of ?P1' ?D output_format quality False "sort kept"]
        by simp
      have d: "disk ?P2 = disk ?s1" using again ex by simp
      obtain names2 where n2: "disk ?s1 source_folder = Some (Folder names2)"
        "filter is_tif names2 = filter is_tif names"
        using extends_at[OF ex, of source_folder] listdir_folder[OF Inr] by blast
      have l2: "listdir ?P2 source_folder = Inr names2"
        using n2(1) d by (simp add: listdir_def)
      have c2: "tif_candidates source_folder names2 = tif_candidates source_folder names"
        using n2(2) by (simp add: tif_candidates_def)
      let ?P2' = "?P2\<lparr>events := events ?P2 @ printed\<rparr>"
      have s2: "snd (?run ?s1) = submit ?D output_format quality False ?P2' (sort kept)"
        using l2 c2 r kp by (simp add: convert_tif_unfold)
      have d2: "disk ?P2' = disk ?s1" using d by simp
      have "\<forall>f \<in> set (sort kept). settled ?D output_format (disk ?s1) f"
        unfolding s1 using submit_settles by blast
      then have "\<forall>f \<in> set (sort kept). settled ?D output_format (disk ?P2') f"
        using d2 by simp
      then have "disk (submit ?D output_format quality False ?P2' (sort kept)) = disk ?P2'"
        by (rule submit_same)
      then show ?thesis using s2 d2 by simp
    qed
  qed
qed

theorem convert_tif_idempotent_witness:
  "disk (snd (convert_tif ''r/volumes/volA'' ''png'' 95 False None None ex_volumes))
     ''r/volumes/volA_png/0.png'' = Some (File (Png [Some 0, Some 1]))
   \<and> disk (snd (convert_tif ''r/volumes/volA'' ''png'' 95 False None None
              (snd (convert_tif ''r/volumes/volA'' ''png'' 95 False None None ex_volumes))))
     = disk (snd (convert_tif ''r/volumes/volA'' ''png'' 95 False None None ex_volumes))"
proof -
  have w: "disk (snd (convert_tif ''r/volumes/volA'' ''png'' 95 False None None ex_volumes))
     ''r/volumes/volA_png/0.png'' = Some (File (Png [Some 0, Some 1]))"
    by code_simp
  show ?thesis
    using w convert_tif_idempotent [of "''r/volumes/volA''" "''png''" 95 None None ex_volumes]
    by blast
qed

section \<open>The Tree Walker: properties\<close>

text \<open>
  C2, as amended. When the root directory does not exist or is not a directory, the walk
  yields nothing: \<^verbatim>\<open>process_specific_folders\<close> processes no folder, changes nothing and
  returns normally, without an error.
\<close>

theorem missing_root_returns:
  assumes "top' = None \<or> top' = Some Plain"
  shows "process_specific_folders root_directory top' target_types output_format quality
           overwrite mod_value output_path \<sigma> = (None, \<sigma>)"
  using assms by (auto simp: process_specific_folders_def)

theorem missing_root_returns_witness:
  "process_specific_folders ''some/file.txt'' (Some Plain) [''layers''] ''jpg'' 95 False None None
     ex_named = (None, ex_named)"
  using missing_root_returns [of "Some Plain" "''some/file.txt''" "[''layers'']" "''jpg''" 95
      False None None ex_named]
  by simp

text \<open>
  The claim C2 as it was stated fails: on a root that does not exist the run ends without
  an error.
\<close>

theorem missing_root_counterexample:
  "process_specific_folders ''/no/such/dir'' None [''layers''] ''jpg'' 95 False None None
     \<lparr>disk = Map.empty, events = []\<rparr> = (None, \<lparr>disk = Map.empty, events = []\<rparr>)"
  by (simp add: process_specific_folders_def)

subsection \<open>Matching folders\<close>





text \<open>
  The scenario of the specification: \<^verbatim>\<open>volumes/volA\<close> with three TIFF files and
  \<^verbatim>\<open>volumes/volB\<close> with two, target \<^verbatim>\<open>volumes\<close>, format \<^verbatim>\<open>png\<close>.
\<close>

lemma end_to_end:
  "(let \<sigma> = snd (process_specific_folders ''r'' (Some ex_volumes_tree) [''volumes''] ''png'' 95
                  True None None ex_volumes)
    in converted (events \<sigma>) = [''r/volumes/volA'', ''r/volumes/volB'']
       \<and> disk \<sigma> ''r/volumes/volA_png'' = Some (Folder [''0.png'', ''1.png'', ''2.png''])
       \<and> disk \<sigma> ''r/volumes/volB_png'' = Some (Folder [''0.png'', ''1.png''])
       \<and> disk \<sigma> ''r/volumes/volA_png/0.png'' = Some (File (Png [Some 0, Some 1]))
       \<and> disk \<sigma> ''r/volumes_png'' = None
       \<and> disk \<sigma> ''r/volumes'' = Some (Folder [''volA'', ''volB'', ''volA_png'', ''volB_png'']))"
  by code_simp

subsection \<open>Pruning\<close>












text \<open>
  The scenario of the specification: \<^verbatim>\<open>foo.zarr/bar/layers\<close> is neither yielded nor
  converted, \<^verbatim>\<open>layers\<close> beside \<^verbatim>\<open>foo.zarr\<close> is.
\<close>

lemma zarr_scenario:
  "(let \<sigma> = snd (process_specific_folders ''r'' (Some ex_zarr_tree) [''layers''] ''jpg'' 95 True
                  None None ex_zarr)
    in converted (events \<sigma>) = [''r/layers'']
       \<and> walked (events \<sigma>) = [''r'', ''r/foo.zarr'', ''r/layers''])"
  by code_simp


end
